theory Spec2Isabelle
  imports Main "HOL-Library.AList" "HOL-Library.Sublist"
begin

section \<open>The /images handler of server.js\<close>

text \<open>
  The repository is one Express handler, \<^verbatim>\<open>app.get("/images", ...)\<close>. It reads the
  process-wide credential \<^verbatim>\<open>TMDB_API_KEY\<close> and the request's \<^verbatim>\<open>query\<close> parameter,
  calls the upstream multi search, picks one movie or TV result, fetches its image
  catalogue and groups the image URLs by language.

  Conventions of the model:
  \<^item> a JavaScript string is a \<open>string\<close> holding its UTF-8 bytes; concatenation and
    equality of strings are concatenation and equality of these byte lists;
  \<^item> where the handler only tests a value for truthiness (the credential, the query
    parameter, \<^verbatim>\<open>title\<close>, \<^verbatim>\<open>name\<close>, the arrays of the catalogue), \<open>None\<close> stands for
    \<^verbatim>\<open>null\<close> and \<^verbatim>\<open>undefined\<close> alike; the language code of an image, which the handler
    compares with \<^verbatim>\<open>=== null\<close>, keeps the two apart;
  \<^item> an object whose properties are arrays of URLs is an association list in property
    creation order, with the members inherited from \<^verbatim>\<open>Object.prototype\<close> visible to
    property reads;
  \<^item> an exception is a value \<open>Inl e\<close>; the handler's \<^verbatim>\<open>catch\<close> turns it into the
    500 answer;
  \<^item> the outbound HTTP calls are returned as a list, in the order they are issued.
  The \<^verbatim>\<open>formatted\<close> text block of the answer is not modelled: it is computed last from
  the grouped mappings, cannot raise, and no other field depends on it.
\<close>

subsection \<open>Strings\<close>

text \<open>
  \<^verbatim>\<open>String.prototype.trim\<close> removes leading and trailing WhiteSpace and LineTerminator
  code points: U+0009 to U+000D, U+0020, U+00A0, U+1680, U+2000 to U+200A, U+2028, U+2029,
  U+202F, U+205F, U+3000 and U+FEFF, listed here in UTF-8.
\<close>

definition white_space :: "string list" where
  "white_space =
     [[CHR 0x09], [CHR 0x0A], [CHR 0x0B], [CHR 0x0C], [CHR 0x0D], [CHR 0x20],
      [CHR 0xC2, CHR 0xA0],
      [CHR 0xE1, CHR 0x9A, CHR 0x80],
      [CHR 0xE2, CHR 0x80, CHR 0x80], [CHR 0xE2, CHR 0x80, CHR 0x81],
      [CHR 0xE2, CHR 0x80, CHR 0x82], [CHR 0xE2, CHR 0x80, CHR 0x83],
      [CHR 0xE2, CHR 0x80, CHR 0x84], [CHR 0xE2, CHR 0x80, CHR 0x85],
      [CHR 0xE2, CHR 0x80, CHR 0x86], [CHR 0xE2, CHR 0x80, CHR 0x87],
      [CHR 0xE2, CHR 0x80, CHR 0x88], [CHR 0xE2, CHR 0x80, CHR 0x89],
      [CHR 0xE2, CHR 0x80, CHR 0x8A],
      [CHR 0xE2, CHR 0x80, CHR 0xA8], [CHR 0xE2, CHR 0x80, CHR 0xA9],
      [CHR 0xE2, CHR 0x80, CHR 0xAF],
      [CHR 0xE2, CHR 0x81, CHR 0x9F],
      [CHR 0xE3, CHR 0x80, CHR 0x80],
      [CHR 0xEF, CHR 0xBB, CHR 0xBF]]"

text \<open>Remove from the front of \<open>s\<close> every leading occurrence of one of the patterns.\<close>

function strip_leading :: "string list \<Rightarrow> string \<Rightarrow> string" where
  "strip_leading ws s =
     (case find (\<lambda>w. w \<noteq> [] \<and> prefix w s) ws of
        None \<Rightarrow> s
      | Some w \<Rightarrow> strip_leading ws (drop (length w) s))"
  by pat_completeness auto
termination
proof (relation "measure (\<lambda>(ws, s). length s)")
  show "wf (measure (\<lambda>(ws, s). length s))"
    by simp
next
  fix ws :: "string list" and s w :: string
  assume "find (\<lambda>w. w \<noteq> [] \<and> prefix w s) ws = Some w"
  then have w: "w \<noteq> [] \<and> prefix w s"
    by (auto simp: find_Some_iff)
  then obtain c cs where "w = c # cs"
    by (cases w) auto
  moreover from w have "length w \<le> length s"
    by (simp add: prefix_length_le)
  ultimately show "((ws, drop (length w) s), (ws, s)) \<in> measure (\<lambda>(ws, s). length s)"
    by simp
qed

declare strip_leading.simps [simp del]

definition trim :: "string \<Rightarrow> string" where
  "trim s = rev (strip_leading (map rev white_space) (rev (strip_leading white_space s)))"

text \<open>\<^verbatim>\<open>xs.join(sep)\<close> on an array of strings.\<close>

fun join :: "string \<Rightarrow> string list \<Rightarrow> string" where
  "join sep [] = []"
| "join sep [x] = x"
| "join sep (x # y # ys) = x @ sep @ join sep (y # ys)"

text \<open>
  Truthiness of a value that is a string or missing: \<^verbatim>\<open>undefined\<close>, \<^verbatim>\<open>null\<close> and
  the empty string are falsy, every other string is truthy.
\<close>

fun truthy :: "string option \<Rightarrow> bool" where
  "truthy None = False"
| "truthy (Some s) = (s \<noteq> [])"

text \<open>\<^verbatim>\<open>v || d\<close> for such a value \<open>v\<close> and a string \<open>d\<close>.\<close>

definition or_else :: "string option \<Rightarrow> string \<Rightarrow> string" where
  "or_else v d = (case v of None \<Rightarrow> d | Some s \<Rightarrow> if s \<noteq> [] then s else d)"

subsection \<open>Upstream data\<close>

text \<open>
  One element of the \<^verbatim>\<open>results\<close> array of the multi search. The field \<^verbatim>\<open>id\<close> is
  called \<open>item_id\<close> here, as the handler's own constant for it. Every element is an object
  with a string \<^verbatim>\<open>media_type\<close>, as upstream documents it.
\<close>

record search_result =
  media_type :: string
  item_id :: int
  title :: "string option"
  name :: "string option"

text \<open>
  The field \<^verbatim>\<open>iso_639_1\<close> of an image: missing from the object (a read yields
  \<^verbatim>\<open>undefined\<close>), \<^verbatim>\<open>null\<close>, or a string.
\<close>

datatype lang_code = Absent | Null | Code string

text \<open>One image of the catalogue; \<^verbatim>\<open>file_path\<close> is a relative path.\<close>

record image_asset =
  iso_639_1 :: lang_code
  file_path :: string

text \<open>The body of the image listing; each of the three arrays may be missing.\<close>

record images_data =
  backdrops :: "image_asset list option"
  posters :: "image_asset list option"
  logos :: "image_asset list option"

text \<open>
  An \<^verbatim>\<open>axios.get\<close> either resolves with the body or rejects; \<open>Rejected d\<close> carries
  what the handler reports as details, \<^verbatim>\<open>err?.response?.data || err.message\<close>.
\<close>

datatype 'a reply = Rejected string | Resolved 'a

text \<open>
  The two outbound calls. \<open>SearchMulti k q\<close> is
  \<^verbatim>\<open>GET BASE_URL/search/multi\<close> with parameters \<^verbatim>\<open>api_key = k, query = q\<close>;
  \<open>GetImages t i k langs\<close> is \<^verbatim>\<open>GET BASE_URL/t/i/images\<close> with parameters
  \<^verbatim>\<open>api_key = k, include_image_language = langs\<close>.
\<close>

datatype request =
  SearchMulti string string
| GetImages string int string string

text \<open>
  The upstream service, as the handler sees it. The search answers with
  \<^verbatim>\<open>multi.data?.results\<close> when that is an array and with \<open>None\<close> otherwise; the image
  listing answers with \<^verbatim>\<open>imagesResp.data\<close>, \<open>None\<close> when it is falsy.
\<close>

record upstream =
  search_multi :: "string \<Rightarrow> string \<Rightarrow> search_result list option reply"
  get_images :: "string \<Rightarrow> int \<Rightarrow> string \<Rightarrow> string \<Rightarrow> images_data option reply"

subsection \<open>Objects with array-valued properties\<close>

text \<open>
  The own properties of an object, in the order in which they are created. (Enumeration
  by \<^verbatim>\<open>Object.keys\<close> moves keys that are array indices to the front; the handler's
  modelled part reads only the number of keys.)
\<close>

type_synonym js_object = "(string \<times> string list) list"

text \<open>
  The three mappings are created by an object literal, by \<^verbatim>\<open>Object.fromEntries\<close> and
  by \<^verbatim>\<open>{}\<close>, so each has \<^verbatim>\<open>Object.prototype\<close> as its prototype, and a read of one
  of these names on an object that has no own property of that name yields the
  inherited member (a function, or the prototype itself for \<^verbatim>\<open>__proto__\<close>).
\<close>

definition Object_prototype :: "string list" where
  "Object_prototype =
     [''constructor'', ''__defineGetter__'', ''__defineSetter__'', ''hasOwnProperty'',
      ''__lookupGetter__'', ''__lookupSetter__'', ''isPrototypeOf'',
      ''propertyIsEnumerable'', ''toString'', ''valueOf'', ''__proto__'',
      ''toLocaleString'']"

datatype lookup = Own "string list" | Inherited | Undefined

definition get_prop :: "js_object \<Rightarrow> string \<Rightarrow> lookup" where
  "get_prop obj k =
     (case map_of obj k of
        Some xs \<Rightarrow> Own xs
      | None \<Rightarrow> if k \<in> set Object_prototype then Inherited else Undefined)"

text \<open>An array and an inherited member are truthy, \<^verbatim>\<open>undefined\<close> is not.\<close>

fun truthy_prop :: "lookup \<Rightarrow> bool" where
  "truthy_prop (Own xs) = True"
| "truthy_prop Inherited = True"
| "truthy_prop Undefined = False"

datatype js_error = TypeError

text \<open>
  \<^verbatim>\<open>obj[k].push(url)\<close>: appends to the array when \<open>k\<close> is an own property, and raises
  a TypeError when \<^verbatim>\<open>obj[k]\<close> is an inherited member (it has no \<^verbatim>\<open>push\<close>) or
  \<^verbatim>\<open>undefined\<close>.
\<close>

definition push_prop :: "js_object \<Rightarrow> string \<Rightarrow> string \<Rightarrow> js_error + js_object" where
  "push_prop obj k url =
     (case get_prop obj k of
        Own xs \<Rightarrow> Inr (AList.update k (xs @ [url]) obj)
      | Inherited \<Rightarrow> Inl TypeError
      | Undefined \<Rightarrow> Inl TypeError)"

text \<open>\<^verbatim>\<open>arr.forEach(f)\<close> where the callback updates one object and may raise.\<close>

fun forEach :: "('s \<Rightarrow> 'a \<Rightarrow> js_error + 's) \<Rightarrow> 'a list \<Rightarrow> 's \<Rightarrow> js_error + 's" where
  "forEach f [] s = Inr s"
| "forEach f (x # xs) s = (case f s x of Inl e \<Rightarrow> Inl e | Inr s' \<Rightarrow> forEach f xs s')"

text \<open>
  The array stored under a key that the object is created with. The handler reads
  \<^verbatim>\<open>groupedBackdrops.en.length\<close> and \<^verbatim>\<open>groupedPosters[l].length\<close> only for such keys.
\<close>

definition bucket :: "js_object \<Rightarrow> string \<Rightarrow> string list" where
  "bucket obj k = (case map_of obj k of Some xs \<Rightarrow> xs | None \<Rightarrow> [])"

text \<open>\<^verbatim>\<open>Object.keys(obj).length\<close>: the number of own properties.\<close>

definition keys_length :: "js_object \<Rightarrow> nat" where
  "keys_length obj = length (map fst obj)"

subsection \<open>Selection of the entity\<close>

definition IMG_URL :: string where
  "IMG_URL = ''https://image.tmdb.org/t/p/original''"

definition is_movie_or_tv :: "search_result \<Rightarrow> bool" where
  "is_movie_or_tv r \<longleftrightarrow> media_type r = ''movie'' \<or> media_type r = ''tv''"

text \<open>
  \<^verbatim>\<open>results.find((r) => r.media_type === "movie" || r.media_type === "tv") || results[0]\<close>;
  \<open>None\<close> is \<^verbatim>\<open>undefined\<close>, the value on an empty array.
\<close>

definition first :: "search_result list \<Rightarrow> search_result option" where
  "first results =
     (case find is_movie_or_tv results of
        Some r \<Rightarrow> Some r
      | None \<Rightarrow> (case results of [] \<Rightarrow> None | r # _ \<Rightarrow> Some r))"

text \<open>\<^verbatim>\<open>first.title || first.name || "Unknown"\<close>\<close>

definition title_of :: "search_result \<Rightarrow> string" where
  "title_of r = or_else (title r) (or_else (name r) ''Unknown'')"

subsection \<open>Grouping\<close>

text \<open>\<^verbatim>\<open>const asFull = (arr = []) => arr.map((i) => IMG_URL + i.file_path)\<close>\<close>

definition asFull :: "image_asset list \<Rightarrow> string list" where
  "asFull arr = map (\<lambda>i. IMG_URL @ file_path i) arr"

text \<open>
  \<^verbatim>\<open>x.iso_639_1 === null ? "null" : x.iso_639_1\<close>: a string, or \<^verbatim>\<open>undefined\<close>
  (\<open>None\<close>) when the field is missing.
\<close>

definition lang_of :: "image_asset \<Rightarrow> string option" where
  "lang_of x = (case iso_639_1 x of Absent \<Rightarrow> None | Null \<Rightarrow> Some ''null'' | Code c \<Rightarrow> Some c)"

text \<open>
  The property name that \<^verbatim>\<open>obj[lang]\<close> reads or writes: the string itself, and
  \<^verbatim>\<open>"undefined"\<close> for \<^verbatim>\<open>undefined\<close>.
\<close>

definition prop_key :: "string option \<Rightarrow> string" where
  "prop_key lang = (case lang of None \<Rightarrow> ''undefined'' | Some s \<Rightarrow> s)"

definition backdropLangs :: "lang_code list" where
  "backdropLangs = [Code ''en'', Code ''hi'', Null]"

definition backdrop_step :: "js_object \<Rightarrow> image_asset \<Rightarrow> js_error + js_object" where
  "backdrop_step obj b =
     (let lang = lang_of b in
      if iso_639_1 b \<in> set backdropLangs \<or> lang = Some ''null''
      then push_prop obj (prop_key lang) (IMG_URL @ file_path b)
      else Inr obj)"

definition groupedBackdrops :: "image_asset list \<Rightarrow> js_error + js_object" where
  "groupedBackdrops bs = forEach backdrop_step bs [(''en'', []), (''hi'', []), (''null'', [])]"

definition posterLangs :: "string list" where
  "posterLangs = [''en'', ''hi'', ''ta'', ''te'', ''ja'', ''ko'']"

text \<open>
  \<^verbatim>\<open>posterLangs.includes(p.iso_639_1)\<close> is false on \<^verbatim>\<open>null\<close> and on
  \<^verbatim>\<open>undefined\<close>.
\<close>

definition poster_step :: "js_object \<Rightarrow> image_asset \<Rightarrow> js_error + js_object" where
  "poster_step obj p =
     (case iso_639_1 p of
        Absent \<Rightarrow> Inr obj
      | Null \<Rightarrow> Inr obj
      | Code lang \<Rightarrow>
          if lang \<in> set posterLangs then push_prop obj lang (IMG_URL @ file_path p)
          else Inr obj)"

definition groupedPosters :: "image_asset list \<Rightarrow> js_error + js_object" where
  "groupedPosters ps = forEach poster_step ps (map (\<lambda>l. (l, [])) posterLangs)"

text \<open>
  \<^verbatim>\<open>if (!groupedLogos[lang]) groupedLogos[lang] = []; groupedLogos[lang].push(...)\<close>.
  A new property goes to the end of the object's own properties.
\<close>

definition logo_step :: "js_object \<Rightarrow> image_asset \<Rightarrow> js_error + js_object" where
  "logo_step obj l =
     (let lang = prop_key (lang_of l);
          obj' = (if \<not> truthy_prop (get_prop obj lang) then AList.update lang [] obj else obj)
      in push_prop obj' lang (IMG_URL @ file_path l))"

definition groupedLogos :: "image_asset list \<Rightarrow> js_error + js_object" where
  "groupedLogos ls = forEach logo_step ls []"

subsection \<open>The skipped list\<close>

definition posterSectionsSkipped :: "js_object \<Rightarrow> string list" where
  "posterSectionsSkipped gp = filter (\<lambda>l. length (bucket gp l) = 0) posterLangs"

definition skipped :: "js_object \<Rightarrow> js_object \<Rightarrow> js_object \<Rightarrow> string list" where
  "skipped gb gp gl =
     (if length (bucket gb ''en'') = 0 \<and> length (bucket gb ''hi'') = 0
         \<and> length (bucket gb ''null'') = 0
      then [''Backdrops (en/hi/null)''] else [])
     @ (if length (posterSectionsSkipped gp) \<noteq> 0
        then [''Posters ('' @ join '', '' (posterSectionsSkipped gp) @ '')''] else [])
     @ (if keys_length gl = 0 then [''Logos (All Languages)''] else [])"

subsection \<open>The answer\<close>

record detected =
  det_media_type :: string
  det_id :: int
  det_title :: string

record payload =
  res_query :: string
  res_detected :: detected
  res_backdrops :: js_object
  res_posters :: js_object
  res_logos :: js_object
  res_skipped :: "string list"

datatype details = UpstreamDetails string | ErrMessage js_error

datatype body =
  Error string
| ErrorDetails string details
| Payload payload

record response =
  status :: nat
  body :: body

text \<open>\<^verbatim>\<open>arr || []\<close> for an array that may be missing.\<close>

definition or_empty :: "'a list option \<Rightarrow> 'a list" where
  "or_empty xs = (case xs of None \<Rightarrow> [] | Some ys \<Rightarrow> ys)"

text \<open>\<^verbatim>\<open>const images = imagesResp.data || {}\<close>\<close>

definition images_of :: "images_data option \<Rightarrow> images_data" where
  "images_of data =
     (case data of
        None \<Rightarrow> \<lparr>backdrops = None, posters = None, logos = None\<rparr>
      | Some d \<Rightarrow> d)"

text \<open>
  Lines 70 to 180 of the handler: from the body of the image listing to the answer's
  fields, or the exception raised on the way.
\<close>

definition build_payload ::
  "string \<Rightarrow> search_result \<Rightarrow> images_data option \<Rightarrow> js_error + payload" where
  "build_payload query r data =
     (let images = images_of data in
      case groupedBackdrops (or_empty (backdrops images)) of
        Inl e \<Rightarrow> Inl e
      | Inr gb \<Rightarrow>
     (case groupedPosters (or_empty (posters images)) of
        Inl e \<Rightarrow> Inl e
      | Inr gp \<Rightarrow>
     (case groupedLogos (or_empty (logos images)) of
        Inl e \<Rightarrow> Inl e
      | Inr gl \<Rightarrow>
          Inr \<lparr>res_query = query,
               res_detected = \<lparr>det_media_type = media_type r, det_id = item_id r,
                               det_title = title_of r\<rparr>,
               res_backdrops = gb, res_posters = gp, res_logos = gl,
               res_skipped = skipped gb gp gl\<rparr>)))"

definition include_image_language :: string where
  "include_image_language = ''en,hi,ta,te,ja,ko,null''"

definition error_fetching :: "details \<Rightarrow> response" where
  "error_fetching d = \<lparr>status = 500, body = ErrorDetails ''Error fetching data'' d\<rparr>"

definition no_result :: response where
  "no_result = \<lparr>status = 404, body = Error ''No result found''\<rparr>"

definition not_movie_tv :: response where
  "not_movie_tv =
     \<lparr>status = 404,
      body = Error ''Top result is not a movie/tv. Try a more specific query (person results are skipped).''\<rparr>"

definition key_missing :: response where
  "key_missing =
     \<lparr>status = 500, body = Error ''TMDB_API_KEY missing in environment variables''\<rparr>"

definition query_required :: response where
  "query_required = \<lparr>status = 400, body = Error ''query param is required''\<rparr>"

text \<open>
  The \<^verbatim>\<open>try\<close> block with its \<^verbatim>\<open>catch\<close>, for a credential \<open>k\<close> and a trimmed query:
  the answer and the outbound calls made, in order.
\<close>

definition resolve :: "string \<Rightarrow> string \<Rightarrow> upstream \<Rightarrow> response \<times> request list" where
  "resolve k query up =
     (let search = SearchMulti k query in
      case search_multi up k query of
        Rejected d \<Rightarrow> (error_fetching (UpstreamDetails d), [search])
      | Resolved res \<Rightarrow>
         (case first (or_empty res) of
            None \<Rightarrow> (no_result, [search])
          | Some r \<Rightarrow>
              if media_type r \<noteq> ''movie'' \<and> media_type r \<noteq> ''tv'' then
                (not_movie_tv, [search])
              else
                (let fetch = GetImages (media_type r) (item_id r) k include_image_language in
                 case get_images up (media_type r) (item_id r) k include_image_language of
                   Rejected d \<Rightarrow> (error_fetching (UpstreamDetails d), [search, fetch])
                 | Resolved data \<Rightarrow>
                    (case build_payload query r data of
                       Inl e \<Rightarrow> (error_fetching (ErrMessage e), [search, fetch])
                     | Inr p \<Rightarrow> (\<lparr>status = 200, body = Payload p\<rparr>, [search, fetch])))))"

text \<open>
  \<^verbatim>\<open>(req.query.query || "").toString().trim()\<close> for a parameter that is a string or
  missing.
\<close>

definition query_of :: "string option \<Rightarrow> string" where
  "query_of raw = trim (or_else raw [])"

text \<open>
  The handler: the credential (\<open>None\<close> when the environment variable is not set), the
  raw \<^verbatim>\<open>query\<close> parameter and the upstream service give the answer and the outbound
  calls made.
\<close>

definition handle :: "string option \<Rightarrow> string option \<Rightarrow> upstream \<Rightarrow> response \<times> request list" where
  "handle TMDB_API_KEY raw up =
     (let query = query_of raw in
      case TMDB_API_KEY of
        None \<Rightarrow> (key_missing, [])
      | Some k \<Rightarrow>
          if \<not> truthy (Some k) then (key_missing, [])
          else if \<not> truthy (Some query) then (query_required, [])
          else resolve k query up)"

subsection \<open>Notions used to state the properties\<close>

text \<open>The distinct elements of a list, in the order of their first occurrence.\<close>

definition first_seen :: "'a list \<Rightarrow> 'a list" where
  "first_seen xs = rev (remdups (rev xs))"

text \<open>The property name under which the handler files an image.\<close>

definition lang_key :: "image_asset \<Rightarrow> string" where
  "lang_key a = prop_key (lang_of a)"

text \<open>The URLs of the assets filed under \<open>k\<close>, in upstream order.\<close>

definition urls_for :: "string \<Rightarrow> image_asset list \<Rightarrow> string list" where
  "urls_for k xs = asFull (filter (\<lambda>a. lang_key a = k) xs)"

subsection \<open>Example inputs\<close>

text \<open>An upstream service that answers every call with the given results and catalogue.\<close>

definition serving :: "search_result list \<Rightarrow> images_data \<Rightarrow> upstream" where
  "serving results images =
     \<lparr>search_multi = (\<lambda>k query. Resolved (Some results)),
      get_images = (\<lambda>t i k langs. Resolved (Some images))\<rparr>"

definition person :: search_result where
  "person = \<lparr>media_type = ''person'', item_id = 7, title = None, name = Some ''Park''\<rparr>"

definition show_tv :: search_result where
  "show_tv =
     \<lparr>media_type = ''tv'', item_id = 42, title = None, name = Some ''Marry My Husband''\<rparr>"

definition film :: search_result where
  "film = \<lparr>media_type = ''movie'', item_id = 43, title = Some ''Husbands'', name = None\<rparr>"

definition img :: "lang_code \<Rightarrow> string \<Rightarrow> image_asset" where
  "img l p = \<lparr>iso_639_1 = l, file_path = p\<rparr>"

definition tamil_only :: images_data where
  "tamil_only = \<lparr>backdrops = None, posters = Some [img (Code ''ta'') ''/p1.jpg''], logos = None\<rparr>"

text \<open>A catalogue whose only image is a logo with the language code \<^verbatim>\<open>constructor\<close>.\<close>

definition constructor_logo :: images_data where
  "constructor_logo =
     \<lparr>backdrops = None, posters = None, logos = Some [img (Code ''constructor'') ''/l1.png'']\<rparr>"

definition catalogue :: images_data where
  "catalogue =
     \<lparr>backdrops = Some [img (Code ''en'') ''/b1.jpg'', img (Code ''fr'') ''/b2.jpg'',
                        img Null ''/b3.jpg''],
      posters = Some [img (Code ''ta'') ''/p1.jpg'', img Null ''/p2.jpg''],
      logos = Some [img (Code ''en'') ''/l1.png'', img Null ''/l2.png'',
                    img (Code ''en'') ''/l3.png'']\<rparr>"

text \<open>
  The payload for the query \<^verbatim>\<open>Marry My Husband\<close>, the result \<open>show_tv\<close> and the
  catalogue above.
\<close>

definition example_payload :: payload where
  "example_payload =
     \<lparr>res_query = ''Marry My Husband'',
      res_detected = \<lparr>det_media_type = ''tv'', det_id = 42, det_title = ''Marry My Husband''\<rparr>,
      res_backdrops =
        [(''en'', [''https://image.tmdb.org/t/p/original/b1.jpg'']), (''hi'', []),
         (''null'', [''https://image.tmdb.org/t/p/original/b3.jpg''])],
      res_posters =
        [(''en'', []), (''hi'', []), (''ta'', [''https://image.tmdb.org/t/p/original/p1.jpg'']),
         (''te'', []), (''ja'', []), (''ko'', [])],
      res_logos =
        [(''en'', [''https://image.tmdb.org/t/p/original/l1.png'',
                   ''https://image.tmdb.org/t/p/original/l3.png'']),
         (''null'', [''https://image.tmdb.org/t/p/original/l2.png''])],
      res_skipped = [''Posters (en, hi, te, ja, ko)'']\<rparr>"

section \<open>Properties of trimming\<close>

lemma strip_leading_Nil [simp]: "strip_leading ws [] = []"
proof -
  have "find (\<lambda>w. w \<noteq> [] \<and> prefix w []) ws = None"
    by (simp add: find_None_iff)
  then show ?thesis
    by (simp add: strip_leading.simps)
qed

lemma trim_Nil [simp]: "trim [] = []"
  by (simp add: trim_def)

lemma query_of_None [simp]: "query_of None = []"
  by (simp add: query_of_def or_else_def)

lemma query_of_Some [simp]: "query_of (Some s) = trim s"
  by (simp add: query_of_def or_else_def)

lemma trim_example: "trim '' Marry My Husband  '' = ''Marry My Husband''"
  by (simp add: trim_def white_space_def strip_leading.simps)

section \<open>Properties of the grouping\<close>

lemma forEach_append:
  "forEach f (xs @ ys) s = (case forEach f xs s of Inl e \<Rightarrow> Inl e | Inr s' \<Rightarrow> forEach f ys s')"
  by (induction xs arbitrary: s) (auto split: sum.splits)

lemma urls_for_Nil [simp]: "urls_for k [] = []"
  by (simp add: urls_for_def asFull_def)

lemma urls_for_Cons:
  "urls_for k (a # xs) =
     (if lang_key a = k then (IMG_URL @ file_path a) # urls_for k xs else urls_for k xs)"
  by (simp add: urls_for_def asFull_def)

lemma urls_for_snoc:
  "urls_for k (xs @ [a]) =
     (if lang_key a = k then urls_for k xs @ [IMG_URL @ file_path a] else urls_for k xs)"
  by (simp add: urls_for_def asFull_def)

lemma lang_key_eq_Code:
  "k \<noteq> ''null'' \<Longrightarrow> k \<noteq> ''undefined'' \<Longrightarrow> lang_key a = k \<longleftrightarrow> iso_639_1 a = Code k"
  by (cases "iso_639_1 a") (auto simp: lang_key_def prop_key_def lang_of_def)

lemma lang_key_eq_lang_of: "k \<noteq> ''undefined'' \<Longrightarrow> lang_key a = k \<longleftrightarrow> lang_of a = Some k"
  by (cases "iso_639_1 a") (auto simp: lang_key_def prop_key_def lang_of_def)

lemma backdrop_step_buckets:
  "backdrop_step [(''en'', x), (''hi'', y), (''null'', z)] b =
     Inr [(''en'', x @ urls_for ''en'' [b]), (''hi'', y @ urls_for ''hi'' [b]),
          (''null'', z @ urls_for ''null'' [b])]"
  by (cases "iso_639_1 b")
    (simp_all add: urls_for_Cons backdrop_step_def push_prop_def get_prop_def
      lang_key_def prop_key_def lang_of_def backdropLangs_def)

lemma forEach_backdrop_step:
  "forEach backdrop_step bs [(''en'', x), (''hi'', y), (''null'', z)] =
     Inr [(''en'', x @ urls_for ''en'' bs), (''hi'', y @ urls_for ''hi'' bs),
          (''null'', z @ urls_for ''null'' bs)]"
proof (induction bs arbitrary: x y z)
  case Nil
  show ?case by simp
next
  case (Cons b bs)
  show ?case
    by (simp add: backdrop_step_buckets Cons.IH urls_for_Cons)
qed

lemma groupedBackdrops_eq:
  "groupedBackdrops bs = Inr (map (\<lambda>k. (k, urls_for k bs)) [''en'', ''hi'', ''null''])"
  using forEach_backdrop_step [of bs "[]" "[]" "[]"] by (simp add: groupedBackdrops_def)

lemma poster_step_buckets:
  "poster_step
     [(''en'', a), (''hi'', b), (''ta'', c), (''te'', d), (''ja'', e), (''ko'', f)] p =
   Inr [(''en'', a @ urls_for ''en'' [p]), (''hi'', b @ urls_for ''hi'' [p]),
        (''ta'', c @ urls_for ''ta'' [p]), (''te'', d @ urls_for ''te'' [p]),
        (''ja'', e @ urls_for ''ja'' [p]), (''ko'', f @ urls_for ''ko'' [p])]"
  by (cases "iso_639_1 p")
    (simp_all add: urls_for_Cons poster_step_def push_prop_def get_prop_def
      lang_key_def prop_key_def lang_of_def posterLangs_def)

lemma forEach_poster_step:
  "forEach poster_step ps
     [(''en'', a), (''hi'', b), (''ta'', c), (''te'', d), (''ja'', e), (''ko'', f)] =
   Inr [(''en'', a @ urls_for ''en'' ps), (''hi'', b @ urls_for ''hi'' ps),
        (''ta'', c @ urls_for ''ta'' ps), (''te'', d @ urls_for ''te'' ps),
        (''ja'', e @ urls_for ''ja'' ps), (''ko'', f @ urls_for ''ko'' ps)]"
proof (induction ps arbitrary: a b c d e f)
  case Nil
  show ?case by simp
next
  case (Cons p ps)
  show ?case
    by (simp add: poster_step_buckets Cons.IH urls_for_Cons)
qed

lemma groupedPosters_eq:
  "groupedPosters ps = Inr (map (\<lambda>l. (l, urls_for l ps)) posterLangs)"
  using forEach_poster_step [of ps "[]" "[]" "[]" "[]" "[]" "[]"]
  by (simp add: groupedPosters_def posterLangs_def)

lemma first_seen_snoc:
  "first_seen (xs @ [x]) = (if x \<in> set xs then first_seen xs else first_seen xs @ [x])"
  by (simp add: first_seen_def)

lemma set_first_seen [simp]: "set (first_seen xs) = set xs"
  by (simp add: first_seen_def)

lemma distinct_first_seen [simp]: "distinct (first_seen xs)"
  by (simp add: first_seen_def)

lemma logo_step_key:
  "logo_step obj l =
     (let lang = lang_key l;
          obj' = (if \<not> truthy_prop (get_prop obj lang) then AList.update lang [] obj else obj)
      in push_prop obj' lang (IMG_URL @ file_path l))"
  by (simp add: logo_step_def lang_key_def)

lemma logo_step_Inr:
  assumes "logo_step obj l = Inr obj'"
  shows "obj' = AList.update (lang_key l) (bucket obj (lang_key l) @ [IMG_URL @ file_path l]) obj"
  using assms
  by (cases "map_of obj (lang_key l)"; cases "lang_key l \<in> set Object_prototype")
    (simp_all add: logo_step_key push_prop_def get_prop_def bucket_def update_conv' Let_def)

lemma logo_step_inherited:
  assumes "lang_key l \<in> set Object_prototype" and "lang_key l \<notin> fst ` set obj"
  shows "logo_step obj l = Inl TypeError"
proof -
  from assms(2) have "map_of obj (lang_key l) = None"
    by (simp add: map_of_eq_None_iff)
  with assms(1) show ?thesis
    by (simp add: logo_step_key push_prop_def get_prop_def Let_def)
qed

lemma logo_step_ok:
  assumes "lang_key l \<notin> set Object_prototype"
  shows "\<exists>obj'. logo_step obj l = Inr obj'"
  using assms
  by (cases "map_of obj (lang_key l)")
    (simp_all add: logo_step_key push_prop_def get_prop_def update_conv' Let_def)

lemma groupedLogos_keys_vals:
  "groupedLogos ls = Inr obj \<Longrightarrow>
     map fst obj = first_seen (map lang_key ls) \<and>
     (\<forall>k. map_of obj k = (if k \<in> lang_key ` set ls then Some (urls_for k ls) else None))"
proof (induction ls arbitrary: obj rule: rev_induct)
  case Nil
  then show ?case
    by (simp add: groupedLogos_def first_seen_def)
next
  case (snoc l ls)
  from snoc.prems obtain obj0 where
    obj0: "groupedLogos ls = Inr obj0" and step: "logo_step obj0 l = Inr obj"
    by (auto simp: groupedLogos_def forEach_append split: sum.splits)
  from snoc.IH [OF obj0] have
    keys: "map fst obj0 = first_seen (map lang_key ls)" and
    vals: "\<And>k. map_of obj0 k = (if k \<in> lang_key ` set ls then Some (urls_for k ls) else None)"
    by simp_all
  have obj: "obj = AList.update (lang_key l) (bucket obj0 (lang_key l) @ [IMG_URL @ file_path l]) obj0"
    by (rule logo_step_Inr [OF step])
  have b: "bucket obj0 (lang_key l) = urls_for (lang_key l) ls"
  proof (cases "lang_key l \<in> lang_key ` set ls")
    case True
    then show ?thesis by (simp add: bucket_def vals)
  next
    case False
    then have "\<forall>a\<in>set ls. lang_key a \<noteq> lang_key l"
      by (metis imageI)
    then have "urls_for (lang_key l) ls = []"
      by (simp add: urls_for_def asFull_def filter_empty_conv)
    with False show ?thesis by (simp add: bucket_def vals)
  qed
  have "map fst obj = first_seen (map lang_key (ls @ [l]))"
    by (simp add: obj update_keys keys first_seen_snoc)
  moreover have "map_of obj k =
      (if k \<in> lang_key ` set (ls @ [l]) then Some (urls_for k (ls @ [l])) else None)" for k
    by (simp add: obj update_conv' vals b urls_for_snoc)
  ultimately show ?case
    by simp
qed

lemma alist_eq_map:
  "distinct (map fst xs) \<Longrightarrow> (\<forall>k\<in>set (map fst xs). map_of xs k = Some (f k)) \<Longrightarrow>
     xs = map (\<lambda>k. (k, f k)) (map fst xs)"
proof (induction xs)
  case Nil
  show ?case by simp
next
  case (Cons x xs)
  obtain k v where x: "x = (k, v)" by (cases x)
  have "map_of xs k' = Some (f k')" if k': "k' \<in> set (map fst xs)" for k'
  proof -
    from k' Cons.prems(1) have "k' \<noteq> k"
      by (auto simp: x)
    moreover from k' have "k' \<in> set (map fst (x # xs))"
      by simp
    with Cons.prems(2) have "map_of (x # xs) k' = Some (f k')"
      by blast
    ultimately show ?thesis
      by (simp add: x)
  qed
  with Cons have "xs = map (\<lambda>k. (k, f k)) (map fst xs)"
    by simp
  moreover have "k \<in> set (map fst (x # xs))"
    by (simp add: x)
  with Cons.prems(2) have "map_of (x # xs) k = Some (f k)"
    by blast
  then have "v = f k"
    by (simp add: x)
  ultimately show ?case
    by (simp add: x)
qed

lemma groupedLogos_Inr:
  assumes "groupedLogos ls = Inr obj"
  shows "obj = map (\<lambda>k. (k, urls_for k ls)) (first_seen (map lang_key ls))"
proof -
  from groupedLogos_keys_vals [OF assms] have
    keys: "map fst obj = first_seen (map lang_key ls)" and
    vals: "\<And>k. map_of obj k = (if k \<in> lang_key ` set ls then Some (urls_for k ls) else None)"
    by simp_all
  have "obj = map (\<lambda>k. (k, urls_for k ls)) (map fst obj)"
    by (rule alist_eq_map) (simp_all add: keys vals)
  then show ?thesis
    by (simp add: keys)
qed

lemma groupedLogos_ok:
  "\<forall>l\<in>set ls. lang_key l \<notin> set Object_prototype \<Longrightarrow> \<exists>obj. groupedLogos ls = Inr obj"
proof (induction ls rule: rev_induct)
  case Nil
  show ?case by (simp add: groupedLogos_def)
next
  case (snoc l ls)
  then obtain obj0 where "groupedLogos ls = Inr obj0"
    by auto
  moreover from snoc.prems obtain obj where "logo_step obj0 l = Inr obj"
    using logo_step_ok [of l obj0] by auto
  ultimately show ?case
    by (simp add: groupedLogos_def forEach_append)
qed

lemma groupedLogos_inherited:
  "\<exists>l\<in>set ls. lang_key l \<in> set Object_prototype \<Longrightarrow> groupedLogos ls = Inl TypeError"
proof (induction ls rule: rev_induct)
  case Nil
  then show ?case by simp
next
  case (snoc l ls)
  show ?case
  proof (cases "\<exists>l\<in>set ls. lang_key l \<in> set Object_prototype")
    case True
    with snoc.IH show ?thesis
      by (simp add: groupedLogos_def forEach_append)
  next
    case False
    with snoc.prems have l: "lang_key l \<in> set Object_prototype"
      by auto
    from False obtain obj0 where obj0: "groupedLogos ls = Inr obj0"
      using groupedLogos_ok [of ls] by auto
    then have "map fst obj0 = first_seen (map lang_key ls)"
      using groupedLogos_keys_vals by blast
    then have "fst ` set obj0 = lang_key ` set ls"
      by (metis set_first_seen set_map)
    with False l have "lang_key l \<notin> fst ` set obj0"
      by auto
    with l have "logo_step obj0 l = Inl TypeError"
      by (rule logo_step_inherited)
    with obj0 show ?thesis
      by (simp add: groupedLogos_def forEach_append)
  qed
qed

lemma sum_list_indicator:
  "distinct ks \<Longrightarrow> a \<in> set ks \<Longrightarrow> (\<Sum>k\<leftarrow>ks. if a = k then 1 else 0) = (1::nat)"
  by (induction ks) auto

lemma sum_length_filter:
  "distinct ks \<Longrightarrow> f ` set xs \<subseteq> set ks \<Longrightarrow>
     (\<Sum>k\<leftarrow>ks. length (filter (\<lambda>a. f a = k) xs)) = length xs"
proof (induction xs)
  case Nil
  show ?case by simp
next
  case (Cons x xs)
  have "(\<Sum>k\<leftarrow>ks. length (filter (\<lambda>a. f a = k) (x # xs))) =
        (\<Sum>k\<leftarrow>ks. (if f x = k then 1 else 0) + length (filter (\<lambda>a. f a = k) xs))"
    by (rule arg_cong [where f = sum_list]) simp
  also have "\<dots> = (\<Sum>k\<leftarrow>ks. if f x = k then 1 else 0) + (\<Sum>k\<leftarrow>ks. length (filter (\<lambda>a. f a = k) xs))"
    by (simp add: sum_list_addf)
  also have "\<dots> = 1 + length xs"
    using Cons by (simp add: sum_list_indicator)
  finally show ?case by simp
qed

lemma length_concat_logos:
  "length (concat (map (\<lambda>k. urls_for k ls) (first_seen (map lang_key ls)))) = length ls"
  using sum_length_filter [of "first_seen (map lang_key ls)" lang_key ls]
  by (simp add: length_concat comp_def urls_for_def asFull_def)

section \<open>Properties of the answer\<close>

lemma build_payload_Inr:
  assumes "build_payload query r data = Inr p"
  shows "res_backdrops p =
           map (\<lambda>k. (k, urls_for k (or_empty (backdrops (images_of data))))) [''en'', ''hi'', ''null'']"
    and "res_posters p =
           map (\<lambda>l. (l, urls_for l (or_empty (posters (images_of data))))) posterLangs"
    and "res_logos p =
           map (\<lambda>k. (k, urls_for k (or_empty (logos (images_of data)))))
             (first_seen (map lang_key (or_empty (logos (images_of data)))))"
    and "res_skipped p = skipped (res_backdrops p) (res_posters p) (res_logos p)"
  using assms
  by (auto simp: build_payload_def Let_def groupedBackdrops_eq groupedPosters_eq
      dest: groupedLogos_Inr split: sum.splits)

lemma build_payload_ok:
  assumes "\<forall>l\<in>set (or_empty (logos (images_of data))). lang_key l \<notin> set Object_prototype"
  shows "\<exists>p. build_payload query r data = Inr p"
proof -
  from groupedLogos_ok [OF assms] obtain gl
    where "groupedLogos (or_empty (logos (images_of data))) = Inr gl" ..
  then show ?thesis
    by (simp add: build_payload_def Let_def groupedBackdrops_eq groupedPosters_eq)
qed

lemma build_payload_example:
  "build_payload ''Marry My Husband'' show_tv (Some catalogue) = Inr example_payload"
  by (simp add: build_payload_def images_of_def catalogue_def img_def or_empty_def
      groupedBackdrops_eq groupedPosters_eq posterLangs_def urls_for_def asFull_def lang_key_def prop_key_def lang_of_def
      groupedLogos_def logo_step_def push_prop_def get_prop_def Object_prototype_def
      IMG_URL_def skipped_def posterSectionsSkipped_def bucket_def keys_length_def
      show_tv_def title_of_def or_else_def example_payload_def)








text \<open>
  Whenever the handler does build a payload, which it does if no logo is filed under the
  name of a member of \<^verbatim>\<open>Object.prototype\<close> (lemma \<open>build_payload_ok\<close>), the keys of the
  logos mapping are the distinct keys of the upstream logos in the order in which they are
  first seen (\<^verbatim>\<open>null\<close> for a logo whose code is \<^verbatim>\<open>null\<close>, \<^verbatim>\<open>undefined\<close> for a logo
  without the field), the bucket of each key holds the URLs of the logos with that key in
  upstream order, and the buckets together hold as many URLs as there are logos.
\<close>

lemma logos_grouping:
  assumes "build_payload query r data = Inr p"
    and "ls = or_empty (logos (images_of data))"
  shows "res_logos p =
           map (\<lambda>k. (k, asFull (filter (\<lambda>a. lang_key a = k) ls))) (first_seen (map lang_key ls))
    \<and> distinct (map fst (res_logos p))
    \<and> set (map fst (res_logos p)) = lang_key ` set ls
    \<and> (\<forall>a\<in>set ls. IMG_URL @ file_path a \<in> set (bucket (res_logos p) (lang_key a)))
    \<and> length (concat (map snd (res_logos p))) = length ls"
proof -
  have gl: "res_logos p = map (\<lambda>k. (k, urls_for k ls)) (first_seen (map lang_key ls))"
    using build_payload_Inr(3) [OF assms(1)] by (simp add: assms(2))
  have keys: "map fst (res_logos p) = first_seen (map lang_key ls)"
    by (simp add: gl comp_def)
  have "IMG_URL @ file_path a \<in> set (bucket (res_logos p) (lang_key a))" if a: "a \<in> set ls" for a
  proof -
    from a have "lang_key a \<in> set (first_seen (map lang_key ls))"
      by simp
    then have "map_of (res_logos p) (lang_key a) = Some (urls_for (lang_key a) ls)"
      by (simp add: gl map_of_map_restrict)
    with a show ?thesis
      by (simp add: bucket_def urls_for_def asFull_def)
  qed
  moreover have "length (concat (map snd (res_logos p))) = length ls"
    using length_concat_logos [of ls] by (simp add: gl comp_def)
  ultimately show ?thesis
    using gl keys by (simp add: urls_for_def)
qed

lemma logos_grouping_example:
  "build_payload ''Marry My Husband'' show_tv (Some catalogue) = Inr example_payload
   \<and> [img (Code ''en'') ''/l1.png'', img Null ''/l2.png'', img (Code ''en'') ''/l3.png''] =
       or_empty (logos (images_of (Some catalogue)))
   \<and> res_logos example_payload =
       [(''en'', [''https://image.tmdb.org/t/p/original/l1.png'',
                  ''https://image.tmdb.org/t/p/original/l3.png'']),
        (''null'', [''https://image.tmdb.org/t/p/original/l2.png''])]
   \<and> length (concat (map snd (res_logos example_payload))) = 3"
proof -
  note ex = build_payload_example
  have ls: "[img (Code ''en'') ''/l1.png'', img Null ''/l2.png'', img (Code ''en'') ''/l3.png''] =
      or_empty (logos (images_of (Some catalogue)))"
    by (simp add: catalogue_def images_of_def or_empty_def)
  note th = logos_grouping [OF ex ls]
  have "res_logos example_payload =
      [(''en'', [''https://image.tmdb.org/t/p/original/l1.png'',
                 ''https://image.tmdb.org/t/p/original/l3.png'']),
       (''null'', [''https://image.tmdb.org/t/p/original/l2.png''])]"
    using th by (simp add: img_def lang_key_def prop_key_def lang_of_def asFull_def IMG_URL_def first_seen_def)
  moreover from th have "length (concat (map snd (res_logos example_payload))) =
      length [img (Code ''en'') ''/l1.png'', img Null ''/l2.png'', img (Code ''en'') ''/l3.png'']"
    by blast
  then have "length (concat (map snd (res_logos example_payload))) = 3"
    by simp
  ultimately show ?thesis
    using ex ls by blast
qed

text \<open>A logo without the \<^verbatim>\<open>iso_639_1\<close> field is filed under \<^verbatim>\<open>undefined\<close>.\<close>

lemma logo_without_field:
  "groupedLogos [img Absent ''/l4.png''] =
     Inr [(''undefined'', [''https://image.tmdb.org/t/p/original/l4.png''])]"
  by (simp add: groupedLogos_def logo_step_def push_prop_def get_prop_def img_def
      prop_key_def lang_of_def Object_prototype_def IMG_URL_def)

text \<open>
  Claim C9. In every answer with a payload, each bucket of the backdrops, posters and logos
  mappings is the list of \<^verbatim>\<open>IMG_URL + file_path\<close> over the assets of that category
  filed under the bucket's key (\<open>lang_key\<close>): every emitted URL is the fixed prefix followed by the asset's path and
  nothing else. The handler's helper \<open>asFull\<close> is the same concatenation.
\<close>

theorem url_is_prefix_plus_path:
  assumes "build_payload query r data = Inr p"
  shows "(\<forall>(k, urls)\<in>set (res_backdrops p).
            urls = map (\<lambda>a. IMG_URL @ file_path a)
                     (filter (\<lambda>a. lang_key a = k) (or_empty (backdrops (images_of data)))))
    \<and> (\<forall>(k, urls)\<in>set (res_posters p).
            urls = map (\<lambda>a. IMG_URL @ file_path a)
                     (filter (\<lambda>a. lang_key a = k) (or_empty (posters (images_of data)))))
    \<and> (\<forall>(k, urls)\<in>set (res_logos p).
            urls = map (\<lambda>a. IMG_URL @ file_path a)
                     (filter (\<lambda>a. lang_key a = k) (or_empty (logos (images_of data)))))
    \<and> (\<forall>arr. asFull arr = map (\<lambda>a. IMG_URL @ file_path a) arr)"
  using build_payload_Inr(1-3) [OF assms]
  by (auto simp: urls_for_def asFull_def)

theorem url_is_prefix_plus_path_witness:
  "build_payload ''Marry My Husband'' show_tv (Some catalogue) = Inr example_payload
   \<and> (''en'', [''https://image.tmdb.org/t/p/original/l1.png'',
               ''https://image.tmdb.org/t/p/original/l3.png'']) \<in> set (res_logos example_payload)
   \<and> [''https://image.tmdb.org/t/p/original/l1.png'',
       ''https://image.tmdb.org/t/p/original/l3.png''] =
      map (\<lambda>a. IMG_URL @ file_path a)
        (filter (\<lambda>a. lang_key a = ''en'') (or_empty (logos (images_of (Some catalogue)))))"
proof -
  note ex = build_payload_example
  note th = url_is_prefix_plus_path [OF ex]
  have en: "(''en'', [''https://image.tmdb.org/t/p/original/l1.png'',
       ''https://image.tmdb.org/t/p/original/l3.png'']) \<in> set (res_logos example_payload)"
    by (simp add: example_payload_def)
  with th have "[''https://image.tmdb.org/t/p/original/l1.png'',
       ''https://image.tmdb.org/t/p/original/l3.png''] =
      map (\<lambda>a. IMG_URL @ file_path a)
        (filter (\<lambda>a. lang_key a = ''en'') (or_empty (logos (images_of (Some catalogue)))))"
    by blast
  with ex en show ?thesis
    by blast
qed


subsection \<open>The skipped list\<close>

lemma bucket_map:
  "bucket (map (\<lambda>k. (k, f k)) ks) k = (if k \<in> set ks then f k else [])"
  by (simp add: bucket_def map_of_map_restrict restrict_map_def)

lemma filter_empty_buckets:
  "map fst (filter (\<lambda>kv. snd kv = []) (map (\<lambda>k. (k, f k)) ks)) =
     filter (\<lambda>k. bucket (map (\<lambda>k. (k, f k)) ks) k = []) ks"
proof -
  have "filter (\<lambda>k. bucket (map (\<lambda>k. (k, f k)) ks) k = []) ks = filter (\<lambda>k. f k = []) ks"
    by (rule filter_cong) (simp_all add: bucket_map)
  moreover have "map fst (filter (\<lambda>kv. snd kv = []) (map (\<lambda>k. (k, f k)) ks)) =
      filter (\<lambda>k. f k = []) ks"
    by (induction ks) simp_all
  ultimately show ?thesis
    by simp
qed

lemma skipped_backdrops:
  "''Backdrops (en/hi/null)'' \<in> set (skipped gb gp gl) \<longleftrightarrow>
     bucket gb ''en'' = [] \<and> bucket gb ''hi'' = [] \<and> bucket gb ''null'' = []"
  by (simp add: skipped_def)

lemma skipped_logos:
  "''Logos (All Languages)'' \<in> set (skipped gb gp gl) \<longleftrightarrow> gl = []"
  by (simp add: skipped_def keys_length_def)

lemma skipped_posters:
  "(\<exists>s\<in>set (skipped gb gp gl). prefix ''Posters ('' s) \<longleftrightarrow> posterSectionsSkipped gp \<noteq> []"
  by (auto simp: skipped_def split: if_splits)

lemma skipped_posters_entry:
  "s \<in> set (skipped gb gp gl) \<Longrightarrow> prefix ''Posters ('' s \<Longrightarrow>
     s = ''Posters ('' @ join '', '' (posterSectionsSkipped gp) @ '')''"
  by (auto simp: skipped_def split: if_splits)

text \<open>
  Claim C6 says that each category's entry is in the skipped list if and only if all
  buckets of the category are empty. For posters the handler lists the empty buckets: with
  a single Tamil poster the \<^verbatim>\<open>ta\<close> bucket is not empty and the posters entry is present.
\<close>

theorem skipped_all_empty_counterexample:
  "build_payload ''Marry My Husband'' show_tv (Some tamil_only) =
     Inr \<lparr>res_query = ''Marry My Husband'',
          res_detected =
            \<lparr>det_media_type = ''tv'', det_id = 42, det_title = ''Marry My Husband''\<rparr>,
          res_backdrops = [(''en'', []), (''hi'', []), (''null'', [])],
          res_posters =
            [(''en'', []), (''hi'', []),
             (''ta'', [''https://image.tmdb.org/t/p/original/p1.jpg'']),
             (''te'', []), (''ja'', []), (''ko'', [])],
          res_logos = [],
          res_skipped =
            [''Backdrops (en/hi/null)'', ''Posters (en, hi, te, ja, ko)'',
             ''Logos (All Languages)'']\<rparr>"
  by (simp add: build_payload_def images_of_def tamil_only_def img_def or_empty_def
      groupedBackdrops_eq groupedPosters_eq posterLangs_def urls_for_def asFull_def lang_key_def prop_key_def lang_of_def
      groupedLogos_def IMG_URL_def skipped_def posterSectionsSkipped_def bucket_def
      keys_length_def show_tv_def title_of_def or_else_def)

text \<open>
  Claim C6, amended. In every answer with a payload: the entry
  \<^verbatim>\<open>Backdrops (en/hi/null)\<close> is in the skipped list if and only if all three backdrop
  buckets are empty; the entry \<^verbatim>\<open>Logos (All Languages)\<close> if and only if the logos
  mapping has no key; an entry for posters if and only if at least one of the six poster
  buckets is empty, and that entry is \<^verbatim>\<open>Posters (...)\<close> listing exactly the keys of the
  empty poster buckets, in the order of the mapping. The skipped list holds these entries
  and nothing else, each at most once, in the order backdrops, posters, logos.
\<close>

theorem skipped_entries:
  assumes "build_payload query r data = Inr p"
  shows "(''Backdrops (en/hi/null)'' \<in> set (res_skipped p) \<longleftrightarrow>
            (\<forall>kv\<in>set (res_backdrops p). snd kv = []))
    \<and> (''Logos (All Languages)'' \<in> set (res_skipped p) \<longleftrightarrow> res_logos p = [])
    \<and> ((\<exists>s\<in>set (res_skipped p). prefix ''Posters ('' s) \<longleftrightarrow>
            (\<exists>kv\<in>set (res_posters p). snd kv = []))
    \<and> (\<forall>s\<in>set (res_skipped p). prefix ''Posters ('' s \<longrightarrow>
            s = ''Posters ('' @
                join '', '' (map fst (filter (\<lambda>kv. snd kv = []) (res_posters p))) @ '')'')
    \<and> res_skipped p =
          (if \<forall>kv\<in>set (res_backdrops p). snd kv = [] then [''Backdrops (en/hi/null)''] else [])
          @ (if \<exists>kv\<in>set (res_posters p). snd kv = []
             then [''Posters ('' @
                   join '', '' (map fst (filter (\<lambda>kv. snd kv = []) (res_posters p))) @ '')'']
             else [])
          @ (if res_logos p = [] then [''Logos (All Languages)''] else [])"
proof -
  note p = build_payload_Inr [OF assms]
  have empties: "posterSectionsSkipped (res_posters p) =
      map fst (filter (\<lambda>kv. snd kv = []) (res_posters p))"
    by (simp add: posterSectionsSkipped_def p(2) filter_empty_buckets)
  have "''Backdrops (en/hi/null)'' \<in> set (res_skipped p) \<longleftrightarrow>
      (\<forall>kv\<in>set (res_backdrops p). snd kv = [])"
    unfolding p(4) skipped_backdrops by (simp add: p(1) bucket_def)
  moreover have "''Logos (All Languages)'' \<in> set (res_skipped p) \<longleftrightarrow> res_logos p = []"
    unfolding p(4) by (rule skipped_logos)
  moreover have "(\<exists>s\<in>set (res_skipped p). prefix ''Posters ('' s) \<longleftrightarrow>
      (\<exists>kv\<in>set (res_posters p). snd kv = [])"
    unfolding p(4) skipped_posters empties by (auto simp: filter_empty_conv)
  moreover have "s = ''Posters ('' @
      join '', '' (map fst (filter (\<lambda>kv. snd kv = []) (res_posters p))) @ '')''"
    if "s \<in> set (res_skipped p)" and "prefix ''Posters ('' s" for s
    using that skipped_posters_entry [of s "res_backdrops p" "res_posters p" "res_logos p"]
    by (simp add: p(4) empties)
  moreover have "res_skipped p =
      (if \<forall>kv\<in>set (res_backdrops p). snd kv = [] then [''Backdrops (en/hi/null)''] else [])
      @ (if \<exists>kv\<in>set (res_posters p). snd kv = []
         then [''Posters ('' @
               join '', '' (map fst (filter (\<lambda>kv. snd kv = []) (res_posters p))) @ '')'']
         else [])
      @ (if res_logos p = [] then [''Logos (All Languages)''] else [])"
  proof -
    have bk: "(length (bucket (res_backdrops p) ''en'') = 0 \<and>
        length (bucket (res_backdrops p) ''hi'') = 0 \<and>
        length (bucket (res_backdrops p) ''null'') = 0) =
        (\<forall>kv\<in>set (res_backdrops p). snd kv = [])"
      by (simp add: p(1) bucket_def)
    have ps: "(length (posterSectionsSkipped (res_posters p)) \<noteq> 0) =
        (\<exists>kv\<in>set (res_posters p). snd kv = [])"
      by (auto simp: empties filter_empty_conv)
    have lg: "(keys_length (res_logos p) = 0) = (res_logos p = [])"
      by (simp add: keys_length_def)
    show ?thesis
      by (simp only: p(4) skipped_def bk ps lg) (simp only: empties)
  qed
  ultimately show ?thesis
    by blast
qed

theorem skipped_entries_witness:
  "build_payload ''Marry My Husband'' show_tv (Some catalogue) = Inr example_payload
   \<and> ''Backdrops (en/hi/null)'' \<notin> set (res_skipped example_payload)
   \<and> ''Logos (All Languages)'' \<notin> set (res_skipped example_payload)
   \<and> ''Posters (en, hi, te, ja, ko)'' \<in> set (res_skipped example_payload)
   \<and> prefix ''Posters ('' ''Posters (en, hi, te, ja, ko)''
   \<and> ''Posters (en, hi, te, ja, ko)'' =
       ''Posters ('' @
       join '', '' (map fst (filter (\<lambda>kv. snd kv = []) (res_posters example_payload))) @ '')''
   \<and> res_skipped example_payload = [''Posters (en, hi, te, ja, ko)'']"
proof -
  note ex = build_payload_example
  note th = skipped_entries [OF ex]
  have e: "res_skipped example_payload = [''Posters (en, hi, te, ja, ko)'']"
    by (simp add: example_payload_def)
  have a: "''Backdrops (en/hi/null)'' \<notin> set (res_skipped example_payload)"
    and b: "''Logos (All Languages)'' \<notin> set (res_skipped example_payload)"
    and c: "''Posters (en, hi, te, ja, ko)'' \<in> set (res_skipped example_payload)"
    and d: "prefix ''Posters ('' ''Posters (en, hi, te, ja, ko)''"
    by (simp_all add: example_payload_def)
  from th c d have "''Posters (en, hi, te, ja, ko)'' =
       ''Posters ('' @
       join '', '' (map fst (filter (\<lambda>kv. snd kv = []) (res_posters example_payload))) @ '')''"
    by blast
  with ex a b c d e show ?thesis
    by blast
qed

section \<open>Properties of the handler\<close>

lemma find_first_such:
  "\<forall>y\<in>set ys. \<not> P y \<Longrightarrow> P r \<Longrightarrow> find P (ys @ r # zs) = Some r"
  by (induction ys) simp_all

lemma find_none_such: "\<forall>y\<in>set ys. \<not> P y \<Longrightarrow> find P ys = None"
  by (induction ys) simp_all

lemma build_payload_detected:
  assumes "build_payload query r data = Inr p"
  shows "res_detected p =
           \<lparr>det_media_type = media_type r, det_id = item_id r, det_title = title_of r\<rparr>"
  using assms by (auto simp: build_payload_def Let_def split: sum.splits)

lemma handle_key_missing: "\<not> truthy key \<Longrightarrow> handle key raw up = (key_missing, [])"
  by (cases key) (simp_all add: handle_def)

lemma handle_query_required:
  "k \<noteq> [] \<Longrightarrow> query_of raw = [] \<Longrightarrow> handle (Some k) raw up = (query_required, [])"
  by (simp add: handle_def)

lemma handle_resolve:
  "k \<noteq> [] \<Longrightarrow> query_of raw \<noteq> [] \<Longrightarrow> handle (Some k) raw up = resolve k (query_of raw) up"
  by (simp add: handle_def)

lemma status_resolve: "status (fst (resolve k q up)) \<noteq> 400"
  by (simp add: resolve_def Let_def error_fetching_def no_result_def not_movie_tv_def
      split: reply.splits option.splits sum.splits)

lemma resolve_Payload:
  assumes "body (fst (resolve k q up)) = Payload p"
  shows "\<exists>res r data.
           search_multi up k q = Resolved res \<and> first (or_empty res) = Some r \<and>
           get_images up (media_type r) (item_id r) k include_image_language = Resolved data \<and>
           build_payload q r data = Inr p"
  using assms
  by (simp add: resolve_def Let_def error_fetching_def no_result_def not_movie_tv_def
      split: reply.splits option.splits sum.splits if_splits)

text \<open>
  Claim C10. The credential is checked before the query: while \<^verbatim>\<open>TMDB_API_KEY\<close> is unset
  (or empty) every request gets the 500 configuration error and no outbound call, whatever
  the query is; so a 400 answer is given only when the credential is set.
\<close>

theorem credential_checked_first:
  "(\<not> truthy key \<longrightarrow>
      handle key raw up =
        (\<lparr>status = 500, body = Error ''TMDB_API_KEY missing in environment variables''\<rparr>, []))
   \<and> (status (fst (handle key raw up)) = 400 \<longrightarrow> truthy key)"
proof (cases "truthy key")
  case True
  then show ?thesis by simp
next
  case False
  then have "handle key raw up = (key_missing, [])"
    by (rule handle_key_missing)
  with False show ?thesis
    by (simp add: key_missing_def)
qed

theorem credential_checked_first_witness:
  "\<not> truthy None
   \<and> handle None None (serving [show_tv] catalogue) =
       (\<lparr>status = 500, body = Error ''TMDB_API_KEY missing in environment variables''\<rparr>, [])
   \<and> status (fst (handle (Some ''key'') None (serving [show_tv] catalogue))) = 400
   \<and> truthy (Some ''key'')"
  using credential_checked_first [of None None "serving [show_tv] catalogue"]
    credential_checked_first [of "Some ''key''" None "serving [show_tv] catalogue"]
  by (simp add: handle_def query_required_def)

text \<open>
  Claim C7. When the search is made (credential set, query not empty after trimming) and
  returns an empty result sequence, or no array at all, the answer is 404 with
  \<^verbatim>\<open>No result found\<close> and the search is the only outbound call: the image listing is
  never requested.
\<close>

theorem empty_results_not_found:
  assumes "k \<noteq> []" and "query_of raw \<noteq> []"
    and "search_multi up k (query_of raw) = Resolved res"
    and "or_empty res = []"
  shows "handle (Some k) raw up =
           (\<lparr>status = 404, body = Error ''No result found''\<rparr>, [SearchMulti k (query_of raw)])"
  using assms
  by (simp add: handle_def resolve_def first_def no_result_def)

theorem empty_results_not_found_witness:
  "''key'' \<noteq> [] \<and> query_of (Some '' Marry My Husband  '') \<noteq> []
   \<and> search_multi (serving [] catalogue) ''key'' (query_of (Some '' Marry My Husband  '')) =
       Resolved (Some [])
   \<and> or_empty (Some ([] :: search_result list)) = []
   \<and> handle (Some ''key'') (Some '' Marry My Husband  '') (serving [] catalogue) =
       (\<lparr>status = 404, body = Error ''No result found''\<rparr>,
        [SearchMulti ''key'' ''Marry My Husband''])"
  using empty_results_not_found [of "''key''" "Some '' Marry My Husband  ''"
      "serving [] catalogue" "Some []"]
  by (simp add: trim_example serving_def or_empty_def)

text \<open>
  Claim C2. When the search returns a non-empty sequence without any element of type
  \<^verbatim>\<open>movie\<close> or \<^verbatim>\<open>tv\<close>, the answer is the 404 wrong-type rejection
  (\<^verbatim>\<open>Top result is not a movie/tv ...\<close>), not \<^verbatim>\<open>No result found\<close>, and the search is
  the only outbound call.
\<close>

theorem other_types_only_rejected:
  assumes "k \<noteq> []" and "query_of raw \<noteq> []"
    and "search_multi up k (query_of raw) = Resolved (Some results)"
    and "results \<noteq> []"
    and "\<forall>r\<in>set results. media_type r \<noteq> ''movie'' \<and> media_type r \<noteq> ''tv''"
  shows "handle (Some k) raw up =
           (\<lparr>status = 404,
             body = Error ''Top result is not a movie/tv. Try a more specific query (person results are skipped).''\<rparr>,
            [SearchMulti k (query_of raw)])
    \<and> body (fst (handle (Some k) raw up)) \<noteq> Error ''No result found''"
proof -
  from assms(4) obtain x xs where results: "results = x # xs"
    by (cases results) auto
  from assms(5) have "find is_movie_or_tv results = None"
    by (intro find_none_such) (simp add: is_movie_or_tv_def)
  then have "first results = Some x"
    by (simp add: first_def results)
  moreover from assms(5) have "media_type x \<noteq> ''movie'' \<and> media_type x \<noteq> ''tv''"
    by (simp add: results)
  ultimately show ?thesis
    using assms(1-3)
    by (simp add: handle_def resolve_def or_empty_def not_movie_tv_def)
qed

theorem other_types_only_rejected_witness:
  "''key'' \<noteq> [] \<and> query_of (Some '' Marry My Husband  '') \<noteq> []
   \<and> search_multi (serving [person, person] catalogue) ''key''
        (query_of (Some '' Marry My Husband  '')) = Resolved (Some [person, person])
   \<and> [person, person] \<noteq> []
   \<and> media_type person \<noteq> ''movie'' \<and> media_type person \<noteq> ''tv''
   \<and> handle (Some ''key'') (Some '' Marry My Husband  '') (serving [person, person] catalogue) =
       (\<lparr>status = 404,
         body = Error ''Top result is not a movie/tv. Try a more specific query (person results are skipped).''\<rparr>,
        [SearchMulti ''key'' ''Marry My Husband''])"
  using other_types_only_rejected [of "''key''" "Some '' Marry My Husband  ''"
      "serving [person, person] catalogue" "[person, person]"]
  by (simp add: trim_example serving_def person_def)

lemma first_movie_or_tv_exists:
  assumes "\<exists>x\<in>set results. media_type x = ''movie'' \<or> media_type x = ''tv''"
  shows "\<exists>ys r zs. results = ys @ r # zs \<and> (media_type r = ''movie'' \<or> media_type r = ''tv'')
           \<and> (\<forall>y\<in>set ys. media_type y \<noteq> ''movie'' \<and> media_type y \<noteq> ''tv'')"
  using split_list_first_prop [OF assms] by auto

text \<open>
  Claim C1. When the search returns a sequence with an element \<open>r\<close> of type \<^verbatim>\<open>movie\<close> or
  \<^verbatim>\<open>tv\<close> before which no element has one of these types (any number \<open>ys\<close> of other
  elements may precede it), the handler selects \<open>r\<close>: \<open>r\<close> is the value of
  \<^verbatim>\<open>first\<close>, the image listing is requested for the type and id of \<open>r\<close>, and an answer
  with a payload reports the type, id and title of \<open>r\<close>. Every sequence with at least one
  such element splits in this way (lemma \<open>first_movie_or_tv_exists\<close>).
\<close>

theorem first_movie_or_tv_selected:
  assumes "k \<noteq> []" and "query_of raw \<noteq> []"
    and "search_multi up k (query_of raw) = Resolved (Some (ys @ r # zs))"
    and "media_type r = ''movie'' \<or> media_type r = ''tv''"
    and "\<forall>y\<in>set ys. media_type y \<noteq> ''movie'' \<and> media_type y \<noteq> ''tv''"
  shows "first (ys @ r # zs) = Some r
    \<and> snd (handle (Some k) raw up) =
        [SearchMulti k (query_of raw),
         GetImages (media_type r) (item_id r) k include_image_language]
    \<and> (\<forall>p. body (fst (handle (Some k) raw up)) = Payload p \<longrightarrow>
          res_detected p =
            \<lparr>det_media_type = media_type r, det_id = item_id r, det_title = title_of r\<rparr>)"
proof -
  from assms(4,5) have "find is_movie_or_tv (ys @ r # zs) = Some r"
    by (intro find_first_such) (simp_all add: is_movie_or_tv_def)
  then have sel: "first (ys @ r # zs) = Some r"
    by (simp add: first_def)
  have h: "handle (Some k) raw up = resolve k (query_of raw) up"
    using assms(1,2) by (rule handle_resolve)
  have calls: "snd (resolve k (query_of raw) up) =
        [SearchMulti k (query_of raw),
         GetImages (media_type r) (item_id r) k include_image_language]"
    using assms(3,4) sel
    by (auto simp: resolve_def or_empty_def Let_def split: reply.splits sum.splits)
  have det: "res_detected p =
      \<lparr>det_media_type = media_type r, det_id = item_id r, det_title = title_of r\<rparr>"
    if "body (fst (resolve k (query_of raw) up)) = Payload p" for p
  proof -
    from resolve_Payload [OF that] assms(3) sel obtain data
      where "build_payload (query_of raw) r data = Inr p"
      by (auto simp: or_empty_def)
    then show ?thesis
      by (rule build_payload_detected)
  qed
  from sel calls det show ?thesis
    by (simp add: h)
qed

theorem first_movie_or_tv_selected_witness:
  "''key'' \<noteq> [] \<and> query_of (Some '' Marry My Husband  '') \<noteq> []
   \<and> search_multi (serving [person, show_tv, film] catalogue) ''key''
        (query_of (Some '' Marry My Husband  '')) = Resolved (Some ([person] @ show_tv # [film]))
   \<and> media_type show_tv = ''tv''
   \<and> media_type person \<noteq> ''movie'' \<and> media_type person \<noteq> ''tv''
   \<and> first ([person] @ show_tv # [film]) = Some show_tv
   \<and> handle (Some ''key'') (Some '' Marry My Husband  '')
        (serving [person, show_tv, film] catalogue) =
       (\<lparr>status = 200, body = Payload example_payload\<rparr>,
        [SearchMulti ''key'' ''Marry My Husband'',
         GetImages ''tv'' 42 ''key'' ''en,hi,ta,te,ja,ko,null''])
   \<and> res_detected example_payload =
       \<lparr>det_media_type = ''tv'', det_id = 42, det_title = ''Marry My Husband''\<rparr>"
proof -
  have k: "''key'' \<noteq> []" and q: "query_of (Some '' Marry My Husband  '') \<noteq> []"
    by (simp_all add: trim_example)
  have s: "search_multi (serving [person, show_tv, film] catalogue) ''key''
      (query_of (Some '' Marry My Husband  '')) = Resolved (Some ([person] @ show_tv # [film]))"
    by (simp add: serving_def)
  have r: "media_type show_tv = ''tv''"
    and y: "media_type person \<noteq> ''movie'' \<and> media_type person \<noteq> ''tv''"
    by (simp_all add: show_tv_def person_def)
  from r y have "media_type show_tv = ''movie'' \<or> media_type show_tv = ''tv''"
    and "\<forall>y\<in>set [person]. media_type y \<noteq> ''movie'' \<and> media_type y \<noteq> ''tv''"
    by simp_all
  note th = first_movie_or_tv_selected [OF k q s this]
  then have sel: "first ([person] @ show_tv # [film]) = Some show_tv"
    by blast
  have h: "handle (Some ''key'') (Some '' Marry My Husband  '')
        (serving [person, show_tv, film] catalogue) =
       (\<lparr>status = 200, body = Payload example_payload\<rparr>,
        [SearchMulti ''key'' ''Marry My Husband'',
         GetImages ''tv'' 42 ''key'' ''en,hi,ta,te,ja,ko,null''])"
  proof -
    from sel have sel': "first [person, show_tv, film] = Some show_tv"
      by simp
    have i: "item_id show_tv = 42"
      by (simp add: show_tv_def)
    show ?thesis
      by (simp add: handle_def resolve_def trim_example serving_def or_empty_def sel' r i
          build_payload_example include_image_language_def)
  qed
  from th h have "res_detected example_payload =
      \<lparr>det_media_type = media_type show_tv, det_id = item_id show_tv,
       det_title = title_of show_tv\<rparr>"
    by simp
  then have "res_detected example_payload =
      \<lparr>det_media_type = ''tv'', det_id = 42, det_title = ''Marry My Husband''\<rparr>"
    by (simp add: show_tv_def title_of_def or_else_def)
  with k q s r y sel h show ?thesis
    by blast
qed

text \<open>
  Claim C8 says that a request whose \<^verbatim>\<open>query\<close> is missing or trims to the empty string
  gets the 400 user error and causes no outbound call. With the credential unset the answer
  is the 500 configuration error instead.
\<close>

theorem empty_query_counterexample:
  "query_of None = []
   \<and> handle None None (serving [show_tv] catalogue) =
       (\<lparr>status = 500, body = Error ''TMDB_API_KEY missing in environment variables''\<rparr>, [])"
  by (simp add: handle_def key_missing_def)

text \<open>
  Claim C8, amended. A request whose \<^verbatim>\<open>query\<close> is missing or trims to the empty
  string causes no outbound call, and it gets the 400 user error whenever the credential is
  set.
\<close>

theorem empty_query_rejected:
  assumes "case raw of None \<Rightarrow> True | Some s \<Rightarrow> trim s = []"
  shows "snd (handle key raw up) = []
    \<and> (truthy key \<longrightarrow>
         handle key raw up =
           (\<lparr>status = 400, body = Error ''query param is required''\<rparr>, []))"
proof -
  from assms have "query_of raw = []"
    by (cases raw) simp_all
  then show ?thesis
    by (cases key) (simp_all add: handle_def query_required_def)
qed

theorem empty_query_rejected_witness:
  "(case Some [CHR 0x20, CHR 0x09, CHR 0xC2, CHR 0xA0] of None \<Rightarrow> True | Some s \<Rightarrow> trim s = [])
   \<and> truthy (Some ''key'')
   \<and> handle (Some ''key'') (Some [CHR 0x20, CHR 0x09, CHR 0xC2, CHR 0xA0])
        (serving [show_tv] catalogue) =
       (\<lparr>status = 400, body = Error ''query param is required''\<rparr>, [])"
  using empty_query_rejected [of "Some [CHR 0x20, CHR 0x09, CHR 0xC2, CHR 0xA0]"
      "Some ''key''" "serving [show_tv] catalogue"]
  by (simp add: trim_def white_space_def strip_leading.simps)

end
